theory Spec2Isabelle
  imports Main "HOL-Library.Sublist" "HOL-Library.AList"
begin

section \<open>Python strings\<close>

text \<open>
  A Python \<open>str\<close> is modelled as a \<open>string\<close>, a list of 8-bit characters, each read
  as the code point of the same number (U+0000 to U+00FF).  The string methods below
  are the Python methods of the same name on such text; text with code points beyond
  U+00FF is outside the model.
\<close>

definition py_space :: "char \<Rightarrow> bool" where
  \<comment> \<open>\<open>str.isspace\<close> on one character, which is also \<open>\s\<close> of \<open>re\<close>: TAB, LF, VT, FF, CR,
      FS, GS, RS, US, SPACE, NEL (U+0085) and NBSP (U+00A0).\<close>
  "py_space c \<longleftrightarrow> c \<in> set [CHR 0x09, CHR 0x0A, CHR 0x0B, CHR 0x0C, CHR 0x0D,
                          CHR 0x1C, CHR 0x1D, CHR 0x1E, CHR 0x1F, CHR 0x20,
                          CHR 0x85, CHR 0xA0]"

definition strip :: "string \<Rightarrow> string" where
  \<comment> \<open>\<open>s.strip()\<close>\<close>
  "strip s = rev (dropWhile py_space (rev (dropWhile py_space s)))"

definition lower_char :: "char \<Rightarrow> char" where
  \<comment> \<open>the cased characters below U+0100: A to Z, and U+00C0 to U+00DE without U+00D7\<close>
  "lower_char c =
     (case map_of (zip (''ABCDEFGHIJKLMNOPQRSTUVWXYZ'' @
                        [CHR 0xC0, CHR 0xC1, CHR 0xC2, CHR 0xC3, CHR 0xC4, CHR 0xC5, CHR 0xC6,
                         CHR 0xC7, CHR 0xC8, CHR 0xC9, CHR 0xCA, CHR 0xCB, CHR 0xCC, CHR 0xCD,
                         CHR 0xCE, CHR 0xCF, CHR 0xD0, CHR 0xD1, CHR 0xD2, CHR 0xD3, CHR 0xD4,
                         CHR 0xD5, CHR 0xD6, CHR 0xD8, CHR 0xD9, CHR 0xDA, CHR 0xDB, CHR 0xDC,
                         CHR 0xDD, CHR 0xDE])
                       (''abcdefghijklmnopqrstuvwxyz'' @
                        [CHR 0xE0, CHR 0xE1, CHR 0xE2, CHR 0xE3, CHR 0xE4, CHR 0xE5, CHR 0xE6,
                         CHR 0xE7, CHR 0xE8, CHR 0xE9, CHR 0xEA, CHR 0xEB, CHR 0xEC, CHR 0xED,
                         CHR 0xEE, CHR 0xEF, CHR 0xF0, CHR 0xF1, CHR 0xF2, CHR 0xF3, CHR 0xF4,
                         CHR 0xF5, CHR 0xF6, CHR 0xF8, CHR 0xF9, CHR 0xFA, CHR 0xFB, CHR 0xFC,
                         CHR 0xFD, CHR 0xFE])) c of
        None \<Rightarrow> c
      | Some d \<Rightarrow> d)"

definition lower :: "string \<Rightarrow> string" where
  \<comment> \<open>\<open>s.lower()\<close>\<close>
  "lower s = map lower_char s"

fun startswith :: "string \<Rightarrow> string \<Rightarrow> bool" where
  \<comment> \<open>\<open>s.startswith(p)\<close>\<close>
  "startswith s [] = True"
| "startswith [] (p # ps) = False"
| "startswith (c # cs) (p # ps) = (c = p \<and> startswith cs ps)"

definition endswith :: "string \<Rightarrow> string \<Rightarrow> bool" where
  \<comment> \<open>\<open>s.endswith(p)\<close>\<close>
  "endswith s p = startswith (rev s) (rev p)"

fun substring_in :: "string \<Rightarrow> string \<Rightarrow> bool" where
  \<comment> \<open>\<open>sub in s\<close>\<close>
  "substring_in sub [] = (sub = [])"
| "substring_in sub (c # cs) = (startswith (c # cs) sub \<or> substring_in sub cs)"

fun split_ws :: "string \<Rightarrow> string \<Rightarrow> string list" where
  "split_ws cur [] = (if cur = [] then [] else [cur])"
| "split_ws cur (c # cs) =
     (if py_space c then (if cur = [] then split_ws [] cs else cur # split_ws [] cs)
      else split_ws (cur @ [c]) cs)"

definition py_split :: "string \<Rightarrow> string list" where
  \<comment> \<open>\<open>s.split()\<close>: the maximal runs of characters that are not white space\<close>
  "py_split s = split_ws [] s"

fun split_sep :: "string \<Rightarrow> nat \<Rightarrow> string \<Rightarrow> string \<Rightarrow> string list" where
  \<comment> \<open>the counter is the number of characters of a separator just matched that are
      still to be skipped; \<open>cur\<close> is the part being collected\<close>
  "split_sep sep k cur [] = [cur]"
| "split_sep sep (Suc k) cur (c # cs) = split_sep sep k cur cs"
| "split_sep sep 0 cur (c # cs) =
     (if startswith (c # cs) sep then cur # split_sep sep (length sep - 1) [] cs
      else split_sep sep 0 (cur @ [c]) cs)"

definition split_on :: "string \<Rightarrow> string \<Rightarrow> string list" where
  \<comment> \<open>\<open>s.split(sep)\<close> for a non-empty separator: the occurrences of \<open>sep\<close> are found
      from left to right and do not overlap\<close>
  "split_on sep s = split_sep sep 0 [] s"

fun remove_occ :: "string \<Rightarrow> nat \<Rightarrow> string \<Rightarrow> string" where
  "remove_occ old k [] = []"
| "remove_occ old (Suc k) (c # cs) = remove_occ old k cs"
| "remove_occ old 0 (c # cs) =
     (if old \<noteq> [] \<and> startswith (c # cs) old then remove_occ old (length old - 1) cs
      else c # remove_occ old 0 cs)"

definition remove_all :: "string \<Rightarrow> string \<Rightarrow> string" where
  \<comment> \<open>\<open>s.replace(old, '')\<close>: every occurrence of \<open>old\<close>, found from left to right without
      overlap, is deleted; with an empty \<open>old\<close> the string is unchanged\<close>
  "remove_all old s = remove_occ old 0 s"

fun py_join :: "string \<Rightarrow> string list \<Rightarrow> string" where
  \<comment> \<open>\<open>sep.join(xs)\<close>\<close>
  "py_join sep [] = []"
| "py_join sep [x] = x"
| "py_join sep (x # y # ys) = x @ sep @ py_join sep (y # ys)"

definition isdigit :: "string \<Rightarrow> bool" where
  \<comment> \<open>\<open>s.isdigit()\<close>: the decimal digits and the superscripts U+00B2, U+00B3, U+00B9\<close>
  "isdigit s \<longleftrightarrow>
     s \<noteq> [] \<and> list_all (\<lambda>c. c \<in> set (''0123456789'' @ [CHR 0xB2, CHR 0xB3, CHR 0xB9])) s"

definition digit_val :: "char \<Rightarrow> int" where
  "digit_val c = (case map_of (zip ''0123456789'' [0, 1, 2, 3, 4, 5, 6, 7, 8, 9]) c of
                    None \<Rightarrow> 0 | Some d \<Rightarrow> d)"

definition int_of_digits :: "string \<Rightarrow> int" where
  \<comment> \<open>the value of a string of decimal digits\<close>
  "int_of_digits s = foldl (\<lambda>n c. 10 * n + digit_val c) 0 s"

fun decimal :: "nat \<Rightarrow> string" where
  \<comment> \<open>\<open>str(n)\<close>\<close>
  "decimal n =
     (if n < 10 then [''0123456789'' ! n]
      else decimal (n div 10) @ [''0123456789'' ! (n mod 10)])"

declare decimal.simps [simp del]

section \<open>Exceptions\<close>

datatype exn =
    SystemExit int
  | ValueError string
  | OSError string
  | OtherError string

definition py_int :: "nat \<Rightarrow> string \<Rightarrow> exn + int" where
  \<comment> \<open>\<open>int(s)\<close> on a string that \<open>isdigit\<close> accepts.  A superscript digit is no decimal
      digit: \<open>ValueError\<close>.  The first argument is \<open>sys.get_int_max_str_digits()\<close>:
      unless it is 0, a string of more digits is refused with \<open>ValueError\<close>.\<close>
  "py_int max_str_digits s =
     (if \<not> list_all (\<lambda>c. c \<in> set ''0123456789'') s then
        Inl (ValueError (''invalid literal for int() with base 10: '' @ [CHR 0x27] @ s
                           @ [CHR 0x27]))
      else if max_str_digits \<noteq> 0 \<and> length s > max_str_digits then
        Inl (ValueError (''Exceeds the limit ('' @ decimal max_str_digits
               @ '' digits) for integer string conversion: value has '' @ decimal (length s)
               @ '' digits; use sys.set_int_max_str_digits() to increase the limit''))
      else Inr (int_of_digits s))"

section \<open>The tokenizer \<open>shlex.split\<close>\<close>

text \<open>
  \<open>execute\<close> and \<open>_should_autorun\<close> call \<open>shlex.split(command)\<close> of the Python standard
  library.  The model follows \<open>shlex.read_token\<close> in the configuration that \<open>split\<close> sets
  up (POSIX mode, \<open>whitespace_split\<close>, no comment characters, no punctuation characters):
  the lexer is in the white-space state, in a word, inside a quotation, or right after
  an escape character, where it remembers the state to return to.  Reaching the end of
  the input inside a quotation or after an escape character raises \<open>ValueError\<close>.
\<close>

datatype lex_state =
    LexSpace
  | LexWord
  | LexQuote char
  | LexEscape "char option"  \<comment> \<open>\<open>escapedstate\<close>: \<open>None\<close> for a word, \<open>Some q\<close> for quotation \<open>q\<close>\<close>

definition shlex_whitespace :: "char list" where
  "shlex_whitespace = [CHR 0x20, CHR 0x09, CHR 0x0D, CHR 0x0A]"

definition shlex_quotes :: "char list" where
  "shlex_quotes = [CHR 0x27, CHR 0x22]"

definition shlex_escape :: "char list" where
  "shlex_escape = [CHR 0x5C]"

definition shlex_escapedquotes :: "char list" where
  "shlex_escapedquotes = [CHR 0x22]"

definition emit_token :: "string \<Rightarrow> exn + string list \<Rightarrow> exn + string list" where
  \<comment> \<open>a finished token, followed by the tokens of the rest of the input\<close>
  "emit_token tok rest = (case rest of Inl e \<Rightarrow> Inl e | Inr ts \<Rightarrow> Inr (tok # ts))"

fun read_tokens :: "lex_state \<Rightarrow> bool \<Rightarrow> string \<Rightarrow> string \<Rightarrow> exn + string list" where
  "read_tokens LexSpace quoted tok [] = Inr (if tok \<noteq> [] \<or> quoted then [tok] else [])"
| "read_tokens LexWord quoted tok [] = Inr (if tok \<noteq> [] \<or> quoted then [tok] else [])"
| "read_tokens (LexQuote q) quoted tok [] = Inl (ValueError ''No closing quotation'')"
| "read_tokens (LexEscape st) quoted tok [] = Inl (ValueError ''No escaped character'')"
| "read_tokens LexSpace quoted tok (c # cs) =
     (if c \<in> set shlex_whitespace then
        (if tok \<noteq> [] \<or> quoted then emit_token tok (read_tokens LexSpace False [] cs)
         else read_tokens LexSpace quoted tok cs)
      else if c \<in> set shlex_escape then read_tokens (LexEscape None) quoted tok cs
      else if c \<in> set shlex_quotes then read_tokens (LexQuote c) quoted tok cs
      else read_tokens LexWord quoted [c] cs)"
| "read_tokens (LexQuote q) quoted tok (c # cs) =
     (if c = q then read_tokens LexWord True tok cs
      else if c \<in> set shlex_escape \<and> q \<in> set shlex_escapedquotes
        then read_tokens (LexEscape (Some q)) True tok cs
      else read_tokens (LexQuote q) True (tok @ [c]) cs)"
| "read_tokens (LexEscape None) quoted tok (c # cs) =
     read_tokens LexWord quoted (tok @ [c]) cs"
| "read_tokens (LexEscape (Some q)) quoted tok (c # cs) =
     (if c \<notin> set shlex_escape \<and> c \<noteq> q
        then read_tokens (LexQuote q) quoted (tok @ shlex_escape @ [c]) cs
      else read_tokens (LexQuote q) quoted (tok @ [c]) cs)"
| "read_tokens LexWord quoted tok (c # cs) =
     (if c \<in> set shlex_whitespace then
        (if tok \<noteq> [] \<or> quoted then emit_token tok (read_tokens LexSpace False [] cs)
         else read_tokens LexSpace quoted tok cs)
      else if c \<in> set shlex_quotes then read_tokens (LexQuote c) quoted tok cs
      else if c \<in> set shlex_escape then read_tokens (LexEscape None) quoted tok cs
      else read_tokens LexWord quoted (tok @ [c]) cs)"

definition shlex_split :: "string \<Rightarrow> exn + string list" where
  "shlex_split s = read_tokens LexSpace False [] s"

definition plain :: "char \<Rightarrow> bool" where
  \<comment> \<open>a character that \<open>shlex\<close> treats as part of a word wherever it stands\<close>
  "plain c \<longleftrightarrow> c \<notin> set shlex_whitespace \<and> c \<notin> set shlex_quotes \<and> c \<notin> set shlex_escape"

section \<open>Session state, command results and the host\<close>

record CommandResult =
  returncode :: int
  stdout :: string
  stderr :: string
  command :: string

record ShellState =
  cwd :: string
  env :: "(string \<times> string) list"
  mode :: string
  last_exit_code :: int
  history :: "string list"
  aliases :: "(string \<times> string) list"
  last_command :: string
  last_stdout :: string
  last_stderr :: string
  last_returncode :: int
  pending_commands :: "string list"
  prompt_prefill :: string

text \<open>
  What the program does to its surroundings is recorded in a trace: the calls of
  \<open>execute\<close>, the calls of the process primitive \<open>subprocess.run\<close> (command and working
  directory), and what the orchestrator prints.
\<close>

datatype event =
    Execute string
  | SubprocessRun string string
  | PrintAgentCommand string bool
  | PrintResult CommandResult
  | PrintNotice string

text \<open>
  A session is the \<open>ShellState\<close> object together with the state \<open>'w\<close> of the world
  outside the program (file system, process environment, standard input) and the
  trace.  Python mutates the state in place, so a function that raises still leaves
  its earlier updates behind: every operation returns the session next to its result
  or its exception.
\<close>

record 'w session = ShellState +
  world :: 'w
  trace :: "event list"

type_synonym ('a, 'w) outcome = "(exn + 'a) \<times> 'w session"

datatype proc_outcome =
    Completed int string string  \<comment> \<open>return code, stdout, stderr\<close>
  | TimeoutExpired
  | RunFailed string             \<comment> \<open>any other \<open>Exception\<close>, with its message\<close>

datatype paste_outcome =
    Pasted string
  | NoPyperclip      \<comment> \<open>\<open>import pyperclip\<close> raises \<open>ImportError\<close>\<close>
  | PasteFailed exn  \<comment> \<open>\<open>pyperclip.paste()\<close> raises\<close>

text \<open>
  The library and operating-system calls of the program are parameters: a host gives
  the platform's \<open>os.path\<close> functions and the answers of the world.  A call that the
  program wraps in \<open>except Exception\<close> or a bare \<open>except\<close> answers with the message of
  its exception (\<open>Inl\<close>) or with \<open>None\<close>; \<open>os.chdir\<close> and the assignment to
  \<open>os.environ\<close>, which the program does not guard, answer with the exception itself.
\<close>

record 'w host =
  os_name :: string
  sys_platform :: string
  int_max_str_digits :: nat
  path_expanduser :: "'w \<Rightarrow> string \<Rightarrow> string"
  path_isabs :: "string \<Rightarrow> bool"
  path_join :: "string \<Rightarrow> string \<Rightarrow> string"
  path_normpath :: "string \<Rightarrow> string"
  path_relpath :: "string \<Rightarrow> string \<Rightarrow> string + string"
  path_isdir :: "'w \<Rightarrow> string \<Rightarrow> bool"
  path_isfile :: "'w \<Rightarrow> string \<Rightarrow> bool"
  os_chdir :: "'w \<Rightarrow> string \<Rightarrow> exn + 'w"
  os_putenv :: "'w \<Rightarrow> string \<Rightarrow> string \<Rightarrow> exn + 'w"
  subprocess_run :: "'w \<Rightarrow> string \<Rightarrow> string \<Rightarrow> (string \<times> string) list \<Rightarrow> nat
                       \<Rightarrow> proc_outcome \<times> 'w"
  file_read :: "'w \<Rightarrow> string \<Rightarrow> string + string"
  glob_glob :: "'w \<Rightarrow> string \<Rightarrow> string list"
  stdin_isatty :: "'w \<Rightarrow> bool"
  stdin_read :: "'w \<Rightarrow> string option \<times> 'w"
  pyperclip_paste :: "'w \<Rightarrow> paste_outcome"
  check_output :: "'w \<Rightarrow> string list \<Rightarrow> string option"
  win32_clipboard :: "'w \<Rightarrow> string option"

section \<open>The command executor (\<open>lib/shell/executor.py\<close>)\<close>

definition record_result :: "CommandResult \<Rightarrow> 'w session \<Rightarrow> 'w session" where
  "record_result r s =
     s\<lparr>last_command := command r, last_stdout := stdout r,
       last_stderr := stderr r, last_returncode := returncode r\<rparr>"

definition cd_target :: "'w host \<Rightarrow> string list \<Rightarrow> 'w session \<Rightarrow> string" where
  \<comment> \<open>the directory \<open>cd\<close> resolves its argument to\<close>
  "cd_target h args s =
     (let target = (if args \<noteq> [] then hd args else path_expanduser h (world s) ''~'');
          target = path_expanduser h (world s) target;
          target = (if \<not> path_isabs h target then path_join h (cwd s) target else target)
      in path_normpath h target)"

definition builtin_cd :: "'w host \<Rightarrow> string list \<Rightarrow> 'w session \<Rightarrow> (CommandResult, 'w) outcome" where
  "builtin_cd h args s =
     (let target = cd_target h args s;
          shown = ''cd '' @ (if args \<noteq> [] then hd args else ''~'')
      in if path_isdir h (world s) target then
           (let s1 = s\<lparr>cwd := target\<rparr> in
            case os_chdir h (world s1) target of
              Inl e \<Rightarrow> (Inl e, s1)
            | Inr w \<Rightarrow> (Inr \<lparr>returncode = 0, stdout = [], stderr = [], command = shown\<rparr>,
                        s1\<lparr>world := w\<rparr>))
         else
           (Inr \<lparr>returncode = 1, stdout = [],
                 stderr = ''cd: '' @ target @ '': No such directory'' @ [CHR 0x0A],
                 command = shown\<rparr>, s))"

definition builtin_pwd :: "'w host \<Rightarrow> string list \<Rightarrow> 'w session \<Rightarrow> (CommandResult, 'w) outcome" where
  "builtin_pwd h args s =
     (Inr \<lparr>returncode = 0, stdout = cwd s @ [CHR 0x0A], stderr = [], command = ''pwd''\<rparr>, s)"

fun export_each :: "'w host \<Rightarrow> string list \<Rightarrow> 'w session \<Rightarrow> exn option \<times> 'w session" where
  \<comment> \<open>the loop over the arguments of \<open>export\<close>; \<open>arg.split('=', 1)\<close> cuts at the first \<open>=\<close>\<close>
  "export_each h [] s = (None, s)"
| "export_each h (arg # rest) s =
     (if substring_in ''='' arg then
        (let key = takeWhile (\<lambda>c. c \<noteq> CHR ''='') arg;
             val = tl (dropWhile (\<lambda>c. c \<noteq> CHR ''='') arg);
             s1 = s\<lparr>env := AList.update key val (env s)\<rparr>
         in case os_putenv h (world s1) key val of
              Inl e \<Rightarrow> (Some e, s1)
            | Inr w \<Rightarrow> export_each h rest (s1\<lparr>world := w\<rparr>))
      else export_each h rest s)"

definition builtin_export :: "'w host \<Rightarrow> string list \<Rightarrow> 'w session \<Rightarrow> (CommandResult, 'w) outcome" where
  "builtin_export h args s =
     (if args = [] then
        (let output = py_join [CHR 0x0A] (map (\<lambda>(k, v). k @ ''='' @ v) (env s))
         in (Inr \<lparr>returncode = 0, stdout = output @ [CHR 0x0A], stderr = [],
                  command = ''export''\<rparr>, s))
      else
        (case export_each h args s of
           (Some e, s1) \<Rightarrow> (Inl e, s1)
         | (None, s1) \<Rightarrow>
             (Inr \<lparr>returncode = 0, stdout = [], stderr = [],
                   command = ''export '' @ py_join '' '' args\<rparr>, s1)))"

definition builtin_exit :: "'w host \<Rightarrow> string list \<Rightarrow> 'w session \<Rightarrow> (CommandResult, 'w) outcome" where
  \<comment> \<open>\<open>int(args[0])\<close> is evaluated before \<open>SystemExit\<close> is raised, and may raise itself\<close>
  "builtin_exit h args s =
     (case (if args \<noteq> [] \<and> isdigit (hd args) then py_int (int_max_str_digits h) (hd args)
            else Inr 0) of
        Inl e \<Rightarrow> (Inl e, s)
      | Inr code \<Rightarrow> (Inl (SystemExit code), s))"

definition builtin_mode :: "'w host \<Rightarrow> string list \<Rightarrow> 'w session \<Rightarrow> (CommandResult, 'w) outcome" where
  "builtin_mode h args s =
     (if args = [] then
        (Inr \<lparr>returncode = 0,
              stdout = ''Current mode: '' @ mode s @ [CHR 0x0A] @ ''Available: shell, nl, ai''
                         @ [CHR 0x0A],
              stderr = [], command = ''mode''\<rparr>, s)
      else
        (let m = lower (hd args) in
         if m \<in> set [''shell'', ''nl'', ''ai''] then
           (Inr \<lparr>returncode = 0, stdout = ''Switched to '' @ m @ '' mode'' @ [CHR 0x0A],
                 stderr = [], command = ''mode '' @ m\<rparr>, s\<lparr>mode := m\<rparr>)
         else
           (Inr \<lparr>returncode = 1, stdout = [],
                 stderr = ''Invalid mode: '' @ m @ ''. Use: shell, nl, or ai'' @ [CHR 0x0A],
                 command = ''mode '' @ m\<rparr>, s)))"

definition register_builtins ::
  "'w host \<Rightarrow> (string \<times> (string list \<Rightarrow> 'w session \<Rightarrow> (CommandResult, 'w) outcome)) list" where
  "register_builtins h =
     [(''cd'', builtin_cd h), (''export'', builtin_export h), (''pwd'', builtin_pwd h),
      (''exit'', builtin_exit h), (''mode'', builtin_mode h)]"

definition shell_interpreters :: "string list" where
  "shell_interpreters = [''cmd'', ''bash'', ''sh'', ''powershell'', ''pwsh'', ''zsh'']"

definition run_external :: "'w host \<Rightarrow> string \<Rightarrow> 'w session \<Rightarrow> (CommandResult, 'w) outcome" where
  \<comment> \<open>the \<open>try\<close> block of \<open>execute\<close>: \<open>subprocess.run\<close> with a timeout of 300 seconds\<close>
  "run_external h cmd s =
     (let s1 = s\<lparr>trace := trace s @ [SubprocessRun cmd (cwd s)]\<rparr> in
      case subprocess_run h (world s) cmd (cwd s) (env s) 300 of
        (Completed rc out err, w) \<Rightarrow>
          (let r = \<lparr>returncode = rc, stdout = out, stderr = err, command = cmd\<rparr>
           in (Inr r, record_result r (s1\<lparr>world := w\<rparr>)))
      | (TimeoutExpired, w) \<Rightarrow>
          (let r = \<lparr>returncode = 124, stdout = [],
                    stderr = ''Command timed out after 5 minutes'', command = cmd\<rparr>
           in (Inr r, record_result r (s1\<lparr>world := w\<rparr>)))
      | (RunFailed msg, w) \<Rightarrow>
          (let r = \<lparr>returncode = 1, stdout = [],
                    stderr = ''Execution error: '' @ msg, command = cmd\<rparr>
           in (Inr r, record_result r (s1\<lparr>world := w\<rparr>))))"

definition execute :: "'w host \<Rightarrow> string \<Rightarrow> 'w session \<Rightarrow> (CommandResult, 'w) outcome" where
  "execute h text s0 =
     (let s = s0\<lparr>trace := trace s0 @ [Execute text]\<rparr>;
          cmd = strip text
      in if cmd = [] \<or> startswith cmd ''#'' then
           (Inr \<lparr>returncode = 0, stdout = [], stderr = [], command = cmd\<rparr>, s)
         else if lower cmd \<in> set shell_interpreters then
           (Inr \<lparr>returncode = 0, stdout = [], stderr = [], command = cmd\<rparr>, s)
         else
           (case shlex_split cmd of
              Inl e \<Rightarrow> (Inl e, s)
            | Inr cmd_parts \<Rightarrow>
                (case (if cmd_parts \<noteq> [] then map_of (register_builtins h) (hd cmd_parts)
                       else None) of
                   Some builtin \<Rightarrow>
                     (case builtin (tl cmd_parts) s of
                        (Inl e, s1) \<Rightarrow> (Inl e, s1)
                      | (Inr r, s1) \<Rightarrow> (Inr r, record_result r s1))
                 | None \<Rightarrow> run_external h cmd s)))"

section \<open>The input classifier (\<open>lib/shell/parser.py\<close>)\<close>

datatype InputType = SHELL_COMMAND | NATURAL_LANGUAGE | AI_REQUEST | COMMENT | EMPTY

definition SHELL_COMMANDS :: "'w host \<Rightarrow> string list" where
  "SHELL_COMMANDS h =
     [''ls'', ''cd'', ''pwd'', ''cat'', ''echo'', ''grep'', ''find'', ''git'',
      ''python'', ''node'', ''npm'', ''pip'', ''docker'', ''kubectl'',
      ''mkdir'', ''rm'', ''cp'', ''mv'', ''touch'', ''chmod'', ''chown'',
      ''ps'', ''kill'', ''top'', ''df'', ''du'', ''tar'', ''gzip'', ''curl'', ''wget'',
      ''export'', ''mode'']
     @ (if os_name h = ''nt'' then [''dir'', ''type'', ''cls'', ''copy'', ''del''] else [])"

definition AI_PREFIX :: string where
  "AI_PREFIX = ''ai:''"

definition first_token :: "string \<Rightarrow> string" where
  \<comment> \<open>\<open>text.split()[0] if text.split() else ''\<close>\<close>
  "first_token text = (case py_split text of [] \<Rightarrow> [] | w # ws \<Rightarrow> w)"

definition shell_operators :: "string list" where
  "shell_operators = [''|'', ''>'', ''<'', ''&&'', ''||'', '';'', ''>>'']"

definition is_shell_command :: "'w host \<Rightarrow> string \<Rightarrow> bool" where
  "is_shell_command h text =
     (let first_word = first_token text in
      if first_word \<in> set (SHELL_COMMANDS h) then True
      else if list_ex (\<lambda>op. substring_in op text) shell_operators then True
      else if startswith first_word ''./'' \<or> startswith first_word ''/'' then True
      else if substring_in ''='' first_word \<and> \<not> substring_in '' '' first_word then True
      else False)"

definition classify :: "'w host \<Rightarrow> string \<Rightarrow> InputType" where
  "classify h user_input =
     (let stripped = strip user_input in
      if stripped = [] then EMPTY
      else if startswith stripped ''#'' then COMMENT
      else if startswith (lower stripped) AI_PREFIX then AI_REQUEST
      else if is_shell_command h stripped then SHELL_COMMAND
      else NATURAL_LANGUAGE)"

definition extract_ai_request :: "string \<Rightarrow> string" where
  "extract_ai_request user_input =
     (if startswith (lower (strip user_input)) AI_PREFIX
      then strip (drop (length AI_PREFIX) (strip user_input))
      else user_input)"

section \<open>The context extractor (\<open>lib/shell/input_buffer.py\<close>)\<close>

record buffer_result =
  clean_command :: string
  context_blobs :: "string list"
  files :: "string list"

fun find_refs :: "nat \<Rightarrow> string \<Rightarrow> string list" where
  \<comment> \<open>\<open>re.findall(r'@([^\s]+)', text)\<close>: at each \<open>@\<close> that is followed by a character
      other than white space, the longest run of such characters is a match, and the
      search goes on after it.  The counter is the number of characters of the match
      still to be skipped.\<close>
  "find_refs k [] = []"
| "find_refs (Suc k) (c # cs) = find_refs k cs"
| "find_refs 0 (c # cs) =
     (let ref = takeWhile (\<lambda>x. \<not> py_space x) cs in
      if c = CHR ''@'' \<and> ref \<noteq> [] then ref # find_refs (length ref) cs
      else find_refs 0 cs)"

definition read_file :: "'w host \<Rightarrow> string \<Rightarrow> 'w session \<Rightarrow> string" where
  "read_file h path0 s =
     (let path = (if \<not> path_isabs h path0 then path_join h (cwd s) path0 else path0) in
      if \<not> path_isfile h (world s) path then
        ''# Error: File not found: '' @ path @ [CHR 0x0A]
      else
        (case file_read h (world s) path of
           Inl msg \<Rightarrow> ''# Error reading '' @ path @ '': '' @ msg @ [CHR 0x0A]
         | Inr content \<Rightarrow>
             (case path_relpath h path (cwd s) of
                Inl msg \<Rightarrow> ''# Error reading '' @ path @ '': '' @ msg @ [CHR 0x0A]
              | Inr rel_path \<Rightarrow>
                  ''# File: '' @ rel_path @ [CHR 0x0A] @ content @ [CHR 0x0A])))"

definition get_clipboard :: "'w host \<Rightarrow> 'w session \<Rightarrow> exn + string" where
  \<comment> \<open>only \<open>ImportError\<close> is caught around \<open>pyperclip.paste()\<close>; the fallback is inside
      \<open>except Exception: pass\<close>\<close>
  "get_clipboard h s =
     (case pyperclip_paste h (world s) of
        Pasted t \<Rightarrow> Inr t
      | PasteFailed e \<Rightarrow> Inl e
      | NoPyperclip \<Rightarrow>
          (if sys_platform h = ''darwin'' then
             (case check_output h (world s) [''pbpaste''] of Some t \<Rightarrow> Inr t | None \<Rightarrow> Inr [])
           else if sys_platform h = ''linux'' then
             (case check_output h (world s) [''xclip'', ''-selection'', ''clipboard'', ''-o''] of
                Some t \<Rightarrow> Inr t | None \<Rightarrow> Inr [])
           else if sys_platform h = ''win32'' then
             (case win32_clipboard h (world s) of Some t \<Rightarrow> Inr t | None \<Rightarrow> Inr [])
           else Inr []))"

definition add_file ::
  "'w host \<Rightarrow> 'w session \<Rightarrow> string list \<times> string list \<Rightarrow> string \<Rightarrow> string list \<times> string list" where
  \<comment> \<open>the pair is (\<open>context\<close>, \<open>files\<close>)\<close>
  "add_file h s acc f =
     (let content = read_file h f s in
      if content \<noteq> [] then (fst acc @ [content], snd acc @ [f]) else acc)"

definition add_ref ::
  "'w host \<Rightarrow> 'w session \<Rightarrow> string list \<times> string list \<Rightarrow> string \<Rightarrow> string list \<times> string list" where
  "add_ref h s acc ref =
     (if substring_in ''*'' ref then foldl (add_file h s) acc (glob_glob h (world s) ref)
      else add_file h s acc ref)"

definition read_stdin :: "'w host \<Rightarrow> 'w session \<Rightarrow> string list \<times> 'w session" where
  "read_stdin h s =
     (if \<not> stdin_isatty h (world s) then
        (case stdin_read h (world s) of
           (Some stdin_content, w) \<Rightarrow>
             (if stdin_content \<noteq> [] then [''# Stdin:'' @ [CHR 0x0A] @ stdin_content] else [],
              s\<lparr>world := w\<rparr>)
         | (None, w) \<Rightarrow> ([], s\<lparr>world := w\<rparr>))
      else ([], s))"

definition clean_text :: "string list \<Rightarrow> string \<Rightarrow> string" where
  "clean_text file_refs text =
     strip (remove_all ''{clip}'' (remove_all ''{clipboard}''
       (foldl (\<lambda>t ref. remove_all (''@'' @ ref) t) text file_refs)))"

definition process_input :: "'w host \<Rightarrow> string \<Rightarrow> 'w session \<Rightarrow> (buffer_result, 'w) outcome" where
  "process_input h text s0 =
     (let (context0, s) = read_stdin h s0;
          file_refs = find_refs 0 text;
          (context1, files1) = foldl (add_ref h s) (context0, []) file_refs
      in if substring_in ''{clipboard}'' text \<or> substring_in ''{clip}'' text then
           (case get_clipboard h s of
              Inl e \<Rightarrow> (Inl e, s)
            | Inr clipboard_content \<Rightarrow>
                (Inr \<lparr>clean_command = clean_text file_refs text,
                      context_blobs = (if clipboard_content \<noteq> []
                                 then context1 @ [''# Clipboard:'' @ [CHR 0x0A] @ clipboard_content]
                                 else context1),
                      files = files1\<rparr>, s))
         else
           (Inr \<lparr>clean_command = clean_text file_refs text, context_blobs = context1,
                 files = files1\<rparr>, s))"

section \<open>The translator's post-processing (\<open>lib/shell/translator.py\<close>)\<close>

fun first_shell_part :: "string list \<Rightarrow> string option" where
  \<comment> \<open>the \<open>for\<close> loop of \<open>_clean_output\<close>: the first part that, stripped, starts with
      \<open>bash\<close> or \<open>sh\<close>; \<open>None\<close> when the loop ends without \<open>break\<close>\<close>
  "first_shell_part [] = None"
| "first_shell_part (part # parts) =
     (if startswith (strip part) ''bash'' \<or> startswith (strip part) ''sh'' then Some part
      else first_shell_part parts)"

definition clean_output :: "string \<Rightarrow> string" where
  "clean_output text =
     strip (if substring_in ''```'' text then
              (let parts = split_on ''```'' text in
               case first_shell_part parts of
                 Some part \<Rightarrow> strip (remove_all ''sh'' (remove_all ''bash'' part))
               | None \<Rightarrow> (if length parts > 1 then parts ! 1 else text))
            else text)"

section \<open>The session orchestrator (\<open>webwright/main.py\<close>)\<close>

definition safe_prefixes :: "string list" where
  "safe_prefixes =
     [''ls'', ''pwd'', ''cd'', ''whoami'', ''date'', ''cat'', ''echo'',
      ''git status'', ''git diff'', ''head'', ''tail'', ''dir'']"

definition risky_keywords :: "string list" where
  "risky_keywords =
     [''rm'', ''mv'', ''chmod'', ''chown'', ''docker'', ''kubectl'',
      ''git push'', ''git commit'', ''pip install'', ''npm install'',
      ''apt'', ''brew'', ''systemctl'', ''shutdown'', ''reboot'']"

definition should_autorun :: "'w host \<Rightarrow> string \<Rightarrow> 'w session \<Rightarrow> bool" where
  \<comment> \<open>\<open>shlex.split\<close> raises nothing but \<open>ValueError\<close>, which the code catches\<close>
  "should_autorun h cmd s =
     (let command_lower = lower cmd in
      if list_ex (\<lambda>prefix. startswith command_lower prefix) safe_prefixes then True
      else if list_ex (\<lambda>keyword. substring_in keyword command_lower) risky_keywords then False
      else if startswith command_lower ''python '' \<or> startswith command_lower ''py '' then
        (let parts = (case shlex_split cmd of Inl e \<Rightarrow> py_split cmd | Inr ps \<Rightarrow> ps) in
         if length parts \<ge> 2 then
           (let script_path = parts ! 1;
                script_path = (if \<not> path_isabs h script_path
                               then path_join h (cwd s) script_path else script_path)
            in if path_isfile h (world s) script_path \<and> endswith script_path ''.py''
               then True else False)
         else False)
      else False)"

definition list_remove :: "string \<Rightarrow> 'w session \<Rightarrow> (unit, 'w) outcome" where
  \<comment> \<open>\<open>self.state.pending_commands.remove(command)\<close>: the first equal element is
      removed; \<open>ValueError\<close> when there is none\<close>
  "list_remove x s =
     (if x \<in> set (pending_commands s)
      then (Inr (), s\<lparr>pending_commands := remove1 x (pending_commands s)\<rparr>)
      else (Inl (ValueError ''list.remove(x): x not in list''), s))"

definition print_event :: "event \<Rightarrow> 'w session \<Rightarrow> 'w session" where
  "print_event e s = s\<lparr>trace := trace s @ [e]\<rparr>"

definition run_command :: "'w host \<Rightarrow> string \<Rightarrow> 'w session \<Rightarrow> (unit, 'w) outcome" where
  \<comment> \<open>the statements both loops share: print the command, execute it, print the result,
      store the return code and remove the command from the queue\<close>
  "run_command h cmd s =
     (case execute h cmd (print_event (PrintAgentCommand cmd False) s) of
        (Inl e, s1) \<Rightarrow> (Inl e, s1)
      | (Inr result, s1) \<Rightarrow>
          list_remove cmd ((print_event (PrintResult result) s1)
                             \<lparr>last_exit_code := returncode result\<rparr>))"

fun triage_loop :: "'w host \<Rightarrow> string list \<Rightarrow> 'w session \<Rightarrow> (unit, 'w) outcome" where
  \<comment> \<open>\<open>for command in list(self.state.pending_commands)\<close>: the list argument is what is
      left of the copy the loop iterates over\<close>
  "triage_loop h [] s = (Inr (), s)"
| "triage_loop h (cmd # rest) s =
     (if should_autorun h cmd s then
        (case run_command h cmd s of
           (Inl e, s1) \<Rightarrow> (Inl e, s1)
         | (Inr u, s1) \<Rightarrow> triage_loop h rest s1)
      else if prompt_prefill s = [] then
        (Inr (),
         print_event (PrintNotice ''Press Enter to run or edit the prepared command.'')
           (print_event (PrintAgentCommand cmd True) (s\<lparr>prompt_prefill := cmd\<rparr>)))
      else (Inr (), s))"

definition execute_translated_commands :: "'w host \<Rightarrow> 'w session \<Rightarrow> (unit, 'w) outcome" where
  "execute_translated_commands h s = triage_loop h (pending_commands s) s"

fun run_loop :: "'w host \<Rightarrow> string list \<Rightarrow> 'w session \<Rightarrow> (unit, 'w) outcome" where
  "run_loop h [] s = (Inr (), s)"
| "run_loop h (cmd # rest) s =
     (case run_command h cmd s of
        (Inl e, s1) \<Rightarrow> (Inl e, s1)
      | (Inr u, s1) \<Rightarrow> run_loop h rest s1)"

definition run_pending_commands :: "'w host \<Rightarrow> 'w session \<Rightarrow> (unit, 'w) outcome" where
  "run_pending_commands h s =
     (if pending_commands s = [] then
        (Inr (), print_event (PrintNotice (''Nothing queued to run.'' @ [CHR 0x0A])) s)
      else run_loop h (pending_commands s) (s\<lparr>prompt_prefill := []\<rparr>))"

definition rerun_phrases :: "string list" where
  "rerun_phrases =
     [''run it'', ''run that'', ''execute it'', ''do it'', ''go ahead'',
      ''please run it'', ''run the command'', ''run those'']"

definition handle_shortcut :: "'w host \<Rightarrow> string \<Rightarrow> 'w session \<Rightarrow> (bool, 'w) outcome" where
  "handle_shortcut h nl_request s =
     (let request = lower (strip nl_request) in
      if request \<in> set rerun_phrases then
        (case run_pending_commands h s of
           (Inl e, s1) \<Rightarrow> (Inl e, s1)
         | (Inr u, s1) \<Rightarrow> (Inr True, s1))
      else (Inr False, s))"

text \<open>The commands given to \<open>execute\<close> and to the process primitive, read off a trace.\<close>

fun executed :: "event list \<Rightarrow> string list" where
  "executed [] = []"
| "executed (Execute c # es) = c # executed es"
| "executed (e # es) = executed es"

fun spawned :: "event list \<Rightarrow> string list" where
  "spawned [] = []"
| "spawned (SubprocessRun c d # es) = c # spawned es"
| "spawned (e # es) = spawned es"

section \<open>An example host\<close>

text \<open>
  A small host for concrete evaluations: POSIX path names over a world that lists its
  directories and files, the commands that run longer than the timeout, and what
  \<open>pyperclip\<close> answers.
\<close>

record example_world =
  dirs :: "string list"
  file_contents :: "(string \<times> string) list"
  slow_commands :: "string list"
  clipboard :: paste_outcome

definition posix_join :: "string \<Rightarrow> string \<Rightarrow> string" where
  "posix_join a b =
     (if startswith b ''/'' then b
      else if a = [] \<or> endswith a ''/'' then a @ b
      else a @ ''/'' @ b)"

fun norm_comps :: "bool \<Rightarrow> string list \<Rightarrow> string list \<Rightarrow> string list" where
  "norm_comps rooted new_comps [] = new_comps"
| "norm_comps rooted new_comps (name # comps) =
     (if name = [] \<or> name = ''.'' then norm_comps rooted new_comps comps
      else if name \<noteq> ''..'' \<or> (\<not> rooted \<and> new_comps = [])
                \<or> (new_comps \<noteq> [] \<and> last new_comps = ''..'')
        then norm_comps rooted (new_comps @ [name]) comps
      else if new_comps \<noteq> [] then norm_comps rooted (butlast new_comps) comps
      else norm_comps rooted new_comps comps)"

definition posix_normpath :: "string \<Rightarrow> string" where
  "posix_normpath path =
     (if path = [] then ''.''
      else
        (let initial_slashes =
               (if startswith path ''//'' \<and> \<not> startswith path ''///'' then ''//''
                else if startswith path ''/'' then ''/'' else []);
             comps = norm_comps (initial_slashes \<noteq> []) [] (split_on ''/'' path);
             normed = initial_slashes @ py_join ''/'' comps
         in if normed = [] then ''.'' else normed))"

definition posix_relpath :: "string \<Rightarrow> string \<Rightarrow> string" where
  \<comment> \<open>for absolute path names, which is what \<open>_read_file\<close> passes\<close>
  "posix_relpath path start =
     (let start_list = filter (\<lambda>x. x \<noteq> []) (split_on ''/'' (posix_normpath start));
          path_list = filter (\<lambda>x. x \<noteq> []) (split_on ''/'' (posix_normpath path));
          i = length (longest_common_prefix start_list path_list);
          rel_list = replicate (length start_list - i) ''..'' @ drop i path_list
      in if rel_list = [] then ''.'' else py_join ''/'' rel_list)"

definition example_host :: "example_world host" where
  "example_host =
     \<lparr>os_name = ''posix'',
      sys_platform = ''linux'',
      int_max_str_digits = 4300,
      path_expanduser = (\<lambda>w p. if p = ''~'' then ''/home/user''
                               else if startswith p ''~/'' then ''/home/user'' @ tl p else p),
      path_isabs = (\<lambda>p. startswith p ''/''),
      path_join = posix_join,
      path_normpath = posix_normpath,
      path_relpath = (\<lambda>p start. Inr (posix_relpath p start)),
      path_isdir = (\<lambda>w p. p \<in> set (dirs w)),
      path_isfile = (\<lambda>w p. map_of (file_contents w) p \<noteq> None),
      os_chdir = (\<lambda>w p. Inr w),
      os_putenv = (\<lambda>w k v. if k = [] then Inl (OSError ''[Errno 22] Invalid argument'')
                             else Inr w),
      subprocess_run = (\<lambda>w cmd dir e t.
                          (if cmd \<in> set (slow_commands w) then TimeoutExpired
                           else Completed 0 [] [], w)),
      file_read = (\<lambda>w p. case map_of (file_contents w) p of
                            Some c \<Rightarrow> Inr c
                          | None \<Rightarrow> Inl ''[Errno 2] No such file or directory''),
      glob_glob = (\<lambda>w pat. []),
      stdin_isatty = (\<lambda>w. True),
      stdin_read = (\<lambda>w. (Some [], w)),
      pyperclip_paste = clipboard,
      check_output = (\<lambda>w args. None),
      win32_clipboard = (\<lambda>w. None)\<rparr>"

definition example_session :: "example_world session" where
  "example_session =
     \<lparr>cwd = ''/home/user'', env = [(''HOME'', ''/home/user'')], mode = ''nl'',
      last_exit_code = 0, history = [], aliases = [],
      last_command = [], last_stdout = [], last_stderr = [], last_returncode = 0,
      pending_commands = [], prompt_prefill = [],
      world = \<lparr>dirs = [''/'', ''/tmp'', ''/home/user''], file_contents = [],
                slow_commands = [''sleep 600''],
                clipboard = PasteFailed (OtherError
                  ''Pyperclip could not find a copy/paste mechanism for your system.'')\<rparr>,
      trace = []\<rparr>"

section \<open>Evaluation rules\<close>

lemmas string_eval =
  strip_def py_space_def lower_def lower_char_def endswith_def py_split_def split_on_def
  remove_all_def isdigit_def digit_val_def int_of_digits_def py_int_def

lemmas shlex_eval =
  shlex_split_def shlex_whitespace_def shlex_quotes_def shlex_escape_def
  shlex_escapedquotes_def emit_token_def

lemmas executor_eval =
  execute_def run_external_def record_result_def register_builtins_def shell_interpreters_def
  builtin_cd_def cd_target_def builtin_pwd_def builtin_exit_def builtin_mode_def
  builtin_export_def Let_def

lemmas orchestrator_eval =
  should_autorun_def safe_prefixes_def risky_keywords_def list_remove_def print_event_def
  run_command_def execute_translated_commands_def run_pending_commands_def rerun_phrases_def
  handle_shortcut_def

lemmas example_eval =
  example_host_def example_session_def posix_join_def posix_normpath_def

section \<open>Strings: trimming, first token, substrings\<close>

lemma startswith_prefix: "startswith s p \<longleftrightarrow> prefix p s"
  by (induction s p rule: startswith.induct) auto

lemma substring_in_sublist: "substring_in sub s \<longleftrightarrow> sublist sub s"
proof (induction s)
  case Nil
  then show ?case by simp
next
  case (Cons c cs)
  then show ?case
    by (cases sub) (simp_all add: startswith_prefix sublist_Cons_right)
qed

lemma dropWhile_keeps_infix:
  assumes "sub \<noteq> []" "\<not> P (hd sub)"
  shows "\<exists>pre'. dropWhile P (pre @ sub @ suf) = pre' @ sub @ suf"
proof (cases "\<forall>x \<in> set pre. P x")
  case True
  from assms have "dropWhile P (sub @ suf) = sub @ suf" by (cases sub) simp_all
  with True have "dropWhile P (pre @ sub @ suf) = [] @ sub @ suf"
    by (simp add: dropWhile_append2)
  then show ?thesis by blast
next
  case False
  then obtain x where "x \<in> set pre" "\<not> P x" by blast
  then have "dropWhile P (pre @ sub @ suf) = dropWhile P pre @ sub @ suf"
    by (simp add: dropWhile_append1)
  then show ?thesis by blast
qed

lemma strip_keeps_infix:
  assumes "sub \<noteq> []" "\<not> py_space (hd sub)" "\<not> py_space (last sub)" "sublist sub text"
  shows "sublist sub (strip text)"
proof -
  from assms(4) obtain pre suf where "text = pre @ sub @ suf" by (auto simp: sublist_def)
  with dropWhile_keeps_infix[of sub py_space pre suf] assms(1,2) obtain pre' where
    d: "dropWhile py_space text = pre' @ sub @ suf" by auto
  have "rev sub \<noteq> []" "\<not> py_space (hd (rev sub))"
    using assms by (simp_all add: hd_rev)
  from dropWhile_keeps_infix[of "rev sub" py_space "rev suf" "rev pre'"] this
  obtain suf' where "dropWhile py_space (rev suf @ rev sub @ rev pre') = suf' @ rev sub @ rev pre'"
    by blast
  with d have "strip text = pre' @ sub @ rev suf'"
    by (simp add: strip_def)
  then show ?thesis by (auto simp: sublist_def)
qed

lemma split_ws_first:
  "(case split_ws cur s of [] \<Rightarrow> [] | w # ws \<Rightarrow> w) =
     (if cur = [] then takeWhile (\<lambda>c. \<not> py_space c) (dropWhile py_space s)
      else cur @ takeWhile (\<lambda>c. \<not> py_space c) s)"
  by (induction s arbitrary: cur) auto

lemma first_token_takeWhile:
  "first_token text = takeWhile (\<lambda>c. \<not> py_space c) (dropWhile py_space text)"
  using split_ws_first[of "[]" "text"] by (simp add: first_token_def py_split_def)

lemma takeWhile_trailing:
  assumes "\<forall>c \<in> set sps. \<not> P c"
  shows "takeWhile P (u @ sps) = takeWhile P u"
proof (cases "\<forall>x \<in> set u. P x")
  case True
  from assms have "takeWhile P sps = []" by (cases sps) simp_all
  with True show ?thesis by (simp add: takeWhile_append2 takeWhile_eq_all_conv[THEN iffD2])
next
  case False
  then show ?thesis by (auto simp: takeWhile_append1)
qed

lemma strip_decomp:
  "\<exists>sps. dropWhile py_space text = strip text @ sps \<and> (\<forall>c \<in> set sps. py_space c)"
proof -
  let ?d = "dropWhile py_space text"
  have "rev ?d = takeWhile py_space (rev ?d) @ dropWhile py_space (rev ?d)" by simp
  then have "?d = rev (dropWhile py_space (rev ?d)) @ rev (takeWhile py_space (rev ?d))"
    by (metis rev_append rev_rev_ident)
  moreover have "\<forall>c \<in> set (rev (takeWhile py_space (rev ?d))). py_space c"
    by (auto dest: set_takeWhileD)
  ultimately show ?thesis unfolding strip_def by blast
qed

lemma strip_starts_nonspace: "strip text \<noteq> [] \<Longrightarrow> \<not> py_space (hd (strip text))"
proof -
  assume ne: "strip text \<noteq> []"
  obtain sps where d: "dropWhile py_space text = strip text @ sps" using strip_decomp by blast
  with ne have "hd (strip text) = hd (dropWhile py_space text)" by simp
  moreover from d ne have "dropWhile py_space text \<noteq> []" by simp
  ultimately show ?thesis by (simp add: hd_dropWhile)
qed

lemma first_token_strip_eq:
  "first_token text = takeWhile (\<lambda>c. \<not> py_space c) (strip text)"
proof -
  obtain sps where d: "dropWhile py_space text = strip text @ sps"
    and sp: "\<forall>c \<in> set sps. py_space c" using strip_decomp by blast
  from sp have "\<forall>c \<in> set sps. \<not> (\<lambda>c. \<not> py_space c) c" by simp
  from takeWhile_trailing[OF this] d show ?thesis
    by (simp add: first_token_takeWhile)
qed

lemma first_token_strip: "first_token (strip text) = first_token text"
proof (cases "strip text = []")
  case True
  then show ?thesis
    using first_token_strip_eq[of "text"] by (simp add: first_token_takeWhile)
next
  case False
  from strip_starts_nonspace[OF False] False
  have "dropWhile py_space (strip text) = strip text" by (cases "strip text") simp_all
  then show ?thesis
    using first_token_strip_eq[of "text"] by (simp add: first_token_takeWhile)
qed

section \<open>The tokenizer on plain words\<close>

lemma read_tokens_prefix:
  "st \<noteq> LexSpace \<Longrightarrow> tok \<noteq> [] \<Longrightarrow> read_tokens st quoted tok cs = Inr ts \<Longrightarrow>
     ts \<noteq> [] \<and> prefix tok (hd ts)"
proof (induction cs arbitrary: st quoted tok)
  case Nil
  then show ?case by (cases st) auto
next
  case (Cons c cs)
  show ?case
  proof (cases st)
    case LexSpace
    with Cons.prems show ?thesis by simp
  next
    case LexWord
    with Cons.prems Cons.IH[of LexWord "tok @ [c]" quoted]
      Cons.IH[of "LexQuote c" tok quoted] Cons.IH[of "LexEscape None" tok quoted]
    show ?thesis
      by (auto simp: emit_token_def split: if_splits sum.splits dest: append_prefixD)
  next
    case (LexQuote q)
    with Cons.prems Cons.IH[of LexWord tok True]
      Cons.IH[of "LexQuote q" "tok @ [c]" True] Cons.IH[of "LexEscape (Some q)" tok True]
    show ?thesis
      by (auto split: if_splits dest: append_prefixD)
  next
    case (LexEscape e)
    show ?thesis
    proof (cases e)
      case None
      with LexEscape Cons.prems Cons.IH[of LexWord "tok @ [c]" quoted]
      show ?thesis by (auto dest: append_prefixD)
    next
      case (Some q)
      with LexEscape Cons.prems Cons.IH[of "LexQuote q" "tok @ [c]" quoted]
        Cons.IH[of "LexQuote q" "tok @ shlex_escape @ [c]" quoted]
      show ?thesis by (auto split: if_splits dest: append_prefixD)
    qed
  qed
qed

lemma read_tokens_plain_word:
  "\<forall>c \<in> set w. plain c \<Longrightarrow> tok \<noteq> [] \<Longrightarrow> read_tokens LexWord quoted tok w = Inr [tok @ w]"
  by (induction w arbitrary: tok) (auto simp: plain_def)

lemma shlex_split_plain_word:
  assumes "w \<noteq> []" "\<forall>c \<in> set w. plain c"
  shows "shlex_split w = Inr [w]"
proof -
  from assms obtain c cs where w: "w = c # cs" by (cases w) auto
  with assms(2) have "plain c" "\<forall>x \<in> set cs. plain x" by auto
  with read_tokens_plain_word[of cs "[c]" False] w show ?thesis
    by (simp add: shlex_split_def plain_def)
qed

lemma letter_plain:
  "lower_char c \<in> set ''abcdefghijklmnopqrstuvwxyz'' \<Longrightarrow> plain c"
  by (auto simp: plain_def shlex_whitespace_def shlex_quotes_def shlex_escape_def lower_char_def)

lemma interpreter_tokens:
  assumes "lower cmd \<in> set shell_interpreters"
  shows "shlex_split cmd = Inr [cmd]"
proof -
  from assms have ne: "cmd \<noteq> []" by (auto simp: shell_interpreters_def lower_def)
  from assms have "set (lower cmd) \<subseteq> set ''abcdefghijklmnopqrstuvwxyz''"
    by (auto simp: shell_interpreters_def)
  then have "\<forall>c \<in> set cmd. lower_char c \<in> set ''abcdefghijklmnopqrstuvwxyz''"
    by (auto simp: lower_def)
  then have "\<forall>c \<in> set cmd. plain c" using letter_plain by blast
  from shlex_split_plain_word[OF ne this] show ?thesis .
qed

lemma cd_dispatch:
  assumes "shlex_split cmd = Inr (''cd'' # args)"
  shows "cmd \<noteq> [] \<and> \<not> startswith cmd ''#'' \<and> lower cmd \<notin> set shell_interpreters"
proof -
  have ne: "cmd \<noteq> []" using assms by (auto simp: shlex_split_def)
  have hash: "\<not> startswith cmd ''#''"
  proof
    assume "startswith cmd ''#''"
    then obtain r where "cmd = CHR ''#'' # r" by (cases cmd) auto
    with assms have "read_tokens LexWord False ''#'' r = Inr (''cd'' # args)"
      by (simp add: shlex_eval)
    from read_tokens_prefix[OF _ _ this] show False by simp
  qed
  have interp: "lower cmd \<notin> set shell_interpreters"
  proof
    assume a: "lower cmd \<in> set shell_interpreters"
    from interpreter_tokens[OF a] assms have "cmd = ''cd''" by simp
    with a show False by (simp add: shell_interpreters_def string_eval)
  qed
  from ne hash interp show ?thesis by simp
qed

section \<open>The classifier on known commands and operators\<close>

lemma operators_infix:
  assumes "list_ex (\<lambda>op. substring_in op text) shell_operators"
  shows "list_ex (\<lambda>op. substring_in op (strip text)) shell_operators"
proof -
  from assms obtain sub where sub: "sub \<in> set shell_operators" "substring_in sub text"
    by (auto simp: list_ex_iff)
  from sub(1) have "sub \<noteq> []" "\<not> py_space (hd sub)" "\<not> py_space (last sub)"
    by (auto simp: shell_operators_def py_space_def)
  from strip_keeps_infix[OF this] sub(2) have "substring_in sub (strip text)"
    by (simp add: substring_in_sublist)
  with sub(1) show ?thesis by (auto simp: list_ex_iff)
qed

lemma known_command_not_comment:
  assumes "first_token text \<in> set (SHELL_COMMANDS h)"
  shows "strip text \<noteq> [] \<and> \<not> startswith (strip text) ''#''
         \<and> \<not> startswith (lower (strip text)) AI_PREFIX"
proof -
  let ?st = "strip text"
  let ?w = "takeWhile (\<lambda>c. \<not> py_space c) ?st"
  have w: "?w \<in> set (SHELL_COMMANDS h)"
    using assms first_token_strip_eq[of "text"] by simp
  have ne: "?st \<noteq> []"
  proof
    assume "?st = []"
    with w show False by (simp add: SHELL_COMMANDS_def split: if_splits)
  qed
  have hash: "\<not> startswith ?st ''#''"
  proof
    assume "startswith ?st ''#''"
    then obtain r where "?st = CHR ''#'' # r" by (cases ?st) auto
    then have "?w = CHR ''#'' # takeWhile (\<lambda>c. \<not> py_space c) r"
      by (simp add: py_space_def)
    with w show False by (auto simp: SHELL_COMMANDS_def split: if_splits)
  qed
  have ai: "\<not> startswith (lower ?st) AI_PREFIX"
  proof
    assume "startswith (lower ?st) AI_PREFIX"
    then obtain c1 c2 c3 r where st: "?st = c1 # c2 # c3 # r"
      and l: "lower_char c1 = CHR ''a''" "lower_char c2 = CHR ''i''" "lower_char c3 = CHR '':''"
      by (cases ?st; cases "tl ?st"; cases "tl (tl ?st)") (auto simp: AI_PREFIX_def lower_def)
    have nsp: "\<not> py_space c" if "lower_char c \<in> set ''ai:''" for c
      using that by (auto simp: py_space_def lower_char_def)
    from l have "\<not> py_space c1" "\<not> py_space c2" "\<not> py_space c3"
      by (simp_all add: nsp)
    with st have "?w = c1 # c2 # c3 # takeWhile (\<lambda>c. \<not> py_space c) r" by simp
    with w l(3) show False
      by (auto simp: SHELL_COMMANDS_def lower_char_def split: if_splits)
  qed
  from ne hash ai show ?thesis by simp
qed

section \<open>What \<open>execute\<close> leaves alone\<close>

lemma executed_append: "executed (xs @ ys) = executed xs @ executed ys"
  by (induction xs rule: executed.induct) simp_all

lemma spawned_append: "spawned (xs @ ys) = spawned xs @ spawned ys"
  by (induction xs rule: spawned.induct) simp_all

lemma export_each_frame:
  "export_each h args s = (r, s') \<Longrightarrow>
     pending_commands s' = pending_commands s \<and> prompt_prefill s' = prompt_prefill s
     \<and> trace s' = trace s \<and> cwd s' = cwd s"
proof (induction args arbitrary: s)
  case Nil
  then show ?case by auto
next
  case (Cons arg rest)
  then show ?case
    by (fastforce simp: Let_def split: if_splits sum.splits)
qed

lemma builtin_frame:
  assumes "map_of (register_builtins h) name = Some f" "f args s = (r, s')"
  shows "pending_commands s' = pending_commands s \<and> prompt_prefill s' = prompt_prefill s
         \<and> trace s' = trace s"
proof -
  from assms(1) consider "f = builtin_cd h" | "f = builtin_export h" | "f = builtin_pwd h"
    | "f = builtin_exit h" | "f = builtin_mode h"
    by (auto simp: register_builtins_def split: if_splits)
  then show ?thesis
  proof cases
    case 1
    with assms(2) show ?thesis
      by (auto simp: builtin_cd_def Let_def split: if_splits sum.splits)
  next
    case 2
    with assms(2) show ?thesis
      using export_each_frame[of h args s]
      by (auto simp: builtin_export_def Let_def split: if_splits prod.splits option.splits)
  next
    case 3
    with assms(2) show ?thesis by (auto simp: builtin_pwd_def)
  next
    case 4
    with assms(2) show ?thesis
      by (auto simp: builtin_exit_def split: sum.splits if_splits)
  next
    case 5
    with assms(2) show ?thesis
      by (auto simp: builtin_mode_def Let_def split: if_splits)
  qed
qed

lemma run_external_result:
  "\<exists>r w. run_external h cmd s =
     (Inr r, record_result r (s\<lparr>trace := trace s @ [SubprocessRun cmd (cwd s)], world := w\<rparr>))
     \<and> command r = cmd"
  by (auto simp: run_external_def Let_def split: prod.splits proc_outcome.splits)

lemma execute_frame:
  assumes "execute h text s = (r, s')"
  shows "pending_commands s' = pending_commands s \<and> prompt_prefill s' = prompt_prefill s
         \<and> executed (trace s') = executed (trace s) @ [text]"
proof -
  let ?s = "s\<lparr>trace := trace s @ [Execute text]\<rparr>"
  have base: "pending_commands ?s = pending_commands s" "prompt_prefill ?s = prompt_prefill s"
    "executed (trace ?s) = executed (trace s) @ [text]"
    by (simp_all add: executed_append)
  show ?thesis
  proof (cases "strip text = [] \<or> startswith (strip text) ''#''
                 \<or> lower (strip text) \<in> set shell_interpreters")
    case True
    with assms have "s' = ?s" by (auto simp: execute_def Let_def split: if_splits)
    with base show ?thesis by simp
  next
    case False
    show ?thesis
    proof (cases "shlex_split (strip text)")
      case (Inl e)
      with False assms have "s' = ?s" by (auto simp: execute_def Let_def)
      with base show ?thesis by simp
    next
      case (Inr parts)
      show ?thesis
      proof (cases "if parts \<noteq> [] then map_of (register_builtins h) (hd parts) else None")
        case None
        with False Inr assms have ext: "run_external h (strip text) ?s = (r, s')"
          by (auto simp: execute_def Let_def)
        obtain r' w where "run_external h (strip text) ?s =
            (Inr r', record_result r' (?s\<lparr>trace := trace ?s @ [SubprocessRun (strip text) (cwd ?s)], world := w\<rparr>))"
          using run_external_result[of h "strip text" ?s] by blast
        with ext have "s' = record_result r' (?s\<lparr>trace := trace ?s @ [SubprocessRun (strip text) (cwd ?s)], world := w\<rparr>)"
          by simp
        then show ?thesis by (simp add: record_result_def executed_append)
      next
        case (Some f)
        then have mo: "map_of (register_builtins h) (hd parts) = Some f"
          by (auto split: if_splits)
        obtain r1 s1 where f: "f (tl parts) ?s = (r1, s1)" by (cases "f (tl parts) ?s")
        from builtin_frame[OF mo f] base
        have fr: "pending_commands s1 = pending_commands s" "prompt_prefill s1 = prompt_prefill s"
          "executed (trace s1) = executed (trace s) @ [text]" by simp_all
        from False Inr Some f assms have "s' = s1 \<or> (\<exists>res. s' = record_result res s1)"
          by (auto simp: execute_def Let_def split: sum.splits)
        with fr show ?thesis by (auto simp: record_result_def)
      qed
    qed
  qed
qed

section \<open>The two loops over the pending queue\<close>

lemma run_command_returns:
  assumes "run_command h cmd s = (Inr u, s')" "pending_commands s = cmd # rest"
  shows "pending_commands s' = rest \<and> prompt_prefill s' = prompt_prefill s
         \<and> executed (trace s') = executed (trace s) @ [cmd]"
proof -
  let ?s0 = "print_event (PrintAgentCommand cmd False) s"
  obtain r s1 where ex: "execute h cmd ?s0 = (r, s1)" by (cases "execute h cmd ?s0")
  from execute_frame[OF ex]
  have fr: "pending_commands s1 = cmd # rest" "prompt_prefill s1 = prompt_prefill s"
    "executed (trace s1) = executed (trace s) @ [cmd]"
    using assms(2) by (simp_all add: print_event_def executed_append)
  from assms(1) ex obtain res where r: "r = Inr res"
    and rm: "list_remove cmd ((print_event (PrintResult res) s1)\<lparr>last_exit_code := returncode res\<rparr>)
               = (Inr u, s')"
    by (auto simp: run_command_def split: sum.splits)
  from rm fr show ?thesis
    by (auto simp: list_remove_def print_event_def executed_append split: if_splits)
qed

lemma run_command_raises:
  assumes "run_command h cmd s = (Inl e, s')" "pending_commands s = cmd # rest"
  shows "pending_commands s' = cmd # rest \<and> prompt_prefill s' = prompt_prefill s
         \<and> executed (trace s') = executed (trace s) @ [cmd]
         \<and> execute h cmd (print_event (PrintAgentCommand cmd False) s) = (Inl e, s')"
proof -
  let ?s0 = "print_event (PrintAgentCommand cmd False) s"
  obtain r s1 where ex: "execute h cmd ?s0 = (r, s1)" by (cases "execute h cmd ?s0")
  from execute_frame[OF ex]
  have fr: "pending_commands s1 = cmd # rest" "prompt_prefill s1 = prompt_prefill s"
    "executed (trace s1) = executed (trace s) @ [cmd]"
    using assms(2) by (simp_all add: print_event_def executed_append)
  from assms(1) ex fr have "r = Inl e \<and> s' = s1"
    by (auto simp: run_command_def list_remove_def print_event_def split: sum.splits if_splits)
  with ex fr show ?thesis by simp
qed

lemma run_loop_returns:
  "pending_commands s = cmds \<Longrightarrow> run_loop h cmds s = (Inr u, s') \<Longrightarrow>
     pending_commands s' = [] \<and> prompt_prefill s' = prompt_prefill s
     \<and> executed (trace s') = executed (trace s) @ cmds"
proof (induction cmds arbitrary: s)
  case Nil
  then show ?case by simp
next
  case (Cons cmd rest)
  obtain r s1 where rc: "run_command h cmd s = (r, s1)" by (cases "run_command h cmd s")
  with Cons.prems(2) obtain u1 where r: "r = Inr u1" and loop: "run_loop h rest s1 = (Inr u, s')"
    by (auto split: sum.splits)
  from run_command_returns[OF rc[unfolded r] Cons.prems(1)]
  have fr: "pending_commands s1 = rest" "prompt_prefill s1 = prompt_prefill s"
    "executed (trace s1) = executed (trace s) @ [cmd]" by simp_all
  from Cons.IH[OF fr(1) loop] fr show ?case by simp
qed

lemma run_loop_raises:
  "pending_commands s = cmds \<Longrightarrow> run_loop h cmds s = (Inl e, s') \<Longrightarrow>
     \<exists>pre c post s0. cmds = pre @ c # post \<and> pending_commands s' = c # post
       \<and> prompt_prefill s' = prompt_prefill s
       \<and> executed (trace s') = executed (trace s) @ pre @ [c]
       \<and> execute h c s0 = (Inl e, s')"
proof (induction cmds arbitrary: s)
  case Nil
  then show ?case by simp
next
  case (Cons cmd rest)
  obtain r s1 where rc: "run_command h cmd s = (r, s1)" by (cases "run_command h cmd s")
  show ?case
  proof (cases r)
    case (Inl e1)
    with rc Cons.prems(2) have e: "e1 = e" "s1 = s'" by auto
    from run_command_raises[OF rc[unfolded Inl e] Cons.prems(1)]
    show ?thesis by (intro exI[of _ "[]"] exI[of _ cmd] exI[of _ rest]) auto
  next
    case (Inr u1)
    with rc Cons.prems(2) have loop: "run_loop h rest s1 = (Inl e, s')" by auto
    from run_command_returns[OF rc[unfolded Inr] Cons.prems(1)]
    have fr: "pending_commands s1 = rest" "prompt_prefill s1 = prompt_prefill s"
      "executed (trace s1) = executed (trace s) @ [cmd]" by simp_all
    from Cons.IH[OF fr(1) loop] obtain pre c post s0 where
      "rest = pre @ c # post" "pending_commands s' = c # post"
      "prompt_prefill s' = prompt_prefill s1"
      "executed (trace s') = executed (trace s1) @ pre @ [c]" "execute h c s0 = (Inl e, s')"
      by blast
    with fr show ?thesis
      by (intro exI[of _ "cmd # pre"] exI[of _ c] exI[of _ post] exI[of _ s0]) auto
  qed
qed

lemma triage_loop_returns:
  "pending_commands s = cmds \<Longrightarrow> prompt_prefill s = [] \<Longrightarrow>
   triage_loop h cmds s = (Inr u, s') \<Longrightarrow>
     (pending_commands s' = [] \<and> prompt_prefill s' = [])
     \<or> (pending_commands s' \<noteq> [] \<and> prompt_prefill s' = hd (pending_commands s'))"
proof (induction cmds arbitrary: s)
  case Nil
  then show ?case by simp
next
  case (Cons cmd rest)
  show ?case
  proof (cases "should_autorun h cmd s")
    case True
    obtain r s1 where rc: "run_command h cmd s = (r, s1)" by (cases "run_command h cmd s")
    with True Cons.prems(3) obtain u1 where r: "r = Inr u1"
      and loop: "triage_loop h rest s1 = (Inr u, s')"
      by (auto split: sum.splits)
    from run_command_returns[OF rc[unfolded r] Cons.prems(1)] Cons.prems(2)
    have fr: "pending_commands s1 = rest" "prompt_prefill s1 = []" by simp_all
    from Cons.IH[OF fr loop] show ?thesis .
  next
    case False
    with Cons.prems show ?thesis by (auto simp: print_event_def)
  qed
qed

lemma execute_translated_commands_returns:
  assumes "prompt_prefill s = []" "execute_translated_commands h s = (Inr u, s')"
  shows "(pending_commands s' = [] \<and> prompt_prefill s' = [])
         \<or> (pending_commands s' \<noteq> [] \<and> prompt_prefill s' = hd (pending_commands s'))"
  using triage_loop_returns[OF refl assms(1)] assms(2)
  by (simp add: execute_translated_commands_def)

section \<open>Claims about the executor\<close>

text \<open>
  Claim C1 (every command whose first token is not \<open>exit\<close> yields a result, and no
  failure, malformed quoting included, is raised past \<open>execute\<close>).  The code does not do
  this: \<open>shlex.split\<close> is called before the \<open>try\<close> block, so on the command
  \<open>echo "hi\<close>, whose quotation is never closed, \<open>execute\<close> raises \<open>ValueError\<close>
  instead of returning a result with return code 1.  This holds on every host and in
  every session.
\<close>

theorem execute_unbalanced_quote_raises:
  "execute h (''echo '' @ [CHR 0x22] @ ''hi'') s =
     (Inl (ValueError ''No closing quotation''),
      s\<lparr>trace := trace s @ [Execute (''echo '' @ [CHR 0x22] @ ''hi'')]\<rparr>)"
  by (simp add: execute_def string_eval shell_interpreters_def shlex_eval Let_def)

text \<open>
  Claim C5 (\<open>cd\<close> to a path that is not an existing directory returns code 1 with a
  \<open>No such directory\<close> message, changes nothing of the working directory and does not
  reach the process primitive).  Whenever the trimmed command splits into \<open>cd\<close> and
  its arguments and the resolved target is not a directory, \<open>execute\<close> returns that
  result; the session it leaves differs from the one it found only in the record of
  the last command and in the trace, which gains the call of \<open>execute\<close> and no call
  of \<open>subprocess.run\<close>.
\<close>

theorem cd_missing_directory:
  assumes "shlex_split (strip text) = Inr (''cd'' # args)"
    "\<not> path_isdir h (world s) (cd_target h args s)"
  shows "execute h text s =
    (Inr \<lparr>returncode = 1, stdout = [],
          stderr = ''cd: '' @ cd_target h args s @ '': No such directory'' @ [CHR 0x0A],
          command = ''cd '' @ (if args \<noteq> [] then hd args else ''~'')\<rparr>,
     s\<lparr>last_command := ''cd '' @ (if args \<noteq> [] then hd args else ''~''),
       last_stdout := [],
       last_stderr := ''cd: '' @ cd_target h args s @ '': No such directory'' @ [CHR 0x0A],
       last_returncode := 1,
       trace := trace s @ [Execute text]\<rparr>)"
proof -
  let ?s = "s\<lparr>trace := trace s @ [Execute text]\<rparr>"
  have tgt: "cd_target h args ?s = cd_target h args s" by (simp add: cd_target_def Let_def)
  from cd_dispatch[OF assms(1)] assms tgt show ?thesis
    by (simp add: execute_def register_builtins_def builtin_cd_def record_result_def Let_def)
qed

theorem cd_missing_directory_witness:
  "shlex_split (strip ''cd /nonexistent-path-xyz'') = Inr [''cd'', ''/nonexistent-path-xyz'']
   \<and> cd_target example_host [''/nonexistent-path-xyz''] example_session = ''/nonexistent-path-xyz''
   \<and> \<not> path_isdir example_host (world example_session) ''/nonexistent-path-xyz''
   \<and> path_isdir example_host (world example_session) (cwd example_session)
   \<and> (\<exists>s'. execute example_host ''cd /nonexistent-path-xyz'' example_session =
        (Inr \<lparr>returncode = 1, stdout = [],
              stderr = ''cd: /nonexistent-path-xyz: No such directory'' @ [CHR 0x0A],
              command = ''cd /nonexistent-path-xyz''\<rparr>, s')
        \<and> cwd s' = cwd example_session \<and> spawned (trace s') = [])"
proof -
  have a: "shlex_split (strip ''cd /nonexistent-path-xyz'') = Inr [''cd'', ''/nonexistent-path-xyz'']"
    by (simp add: string_eval shlex_eval)
  have t: "cd_target example_host [''/nonexistent-path-xyz''] example_session = ''/nonexistent-path-xyz''"
    by (simp add: cd_target_def example_eval string_eval)
  have b: "\<not> path_isdir example_host (world example_session)
              (cd_target example_host [''/nonexistent-path-xyz''] example_session)"
    unfolding t by (simp add: example_eval)
  have d: "path_isdir example_host (world example_session) (cwd example_session)"
    by (simp add: example_eval)
  have tr: "trace example_session = []" by (simp add: example_session_def)
  from cd_missing_directory[OF a b] a t b d tr show ?thesis by simp
qed

text \<open>
  Claim C9 (a command that is not a built-in and runs longer than the timeout of 300
  seconds returns code 124 with a timeout message).  The hypotheses say that the
  command reaches \<open>subprocess.run\<close>: it is not empty, not a comment, not a bare
  interpreter name, and its first token is not a built-in.
\<close>

theorem execute_timeout:
  assumes "strip text \<noteq> []" "\<not> startswith (strip text) ''#''"
    "lower (strip text) \<notin> set shell_interpreters"
    "shlex_split (strip text) = Inr parts"
    "parts \<noteq> [] \<longrightarrow> map_of (register_builtins h) (hd parts) = None"
    "subprocess_run h (world s) (strip text) (cwd s) (env s) 300 = (TimeoutExpired, w)"
  shows "execute h text s =
     (Inr \<lparr>returncode = 124, stdout = [], stderr = ''Command timed out after 5 minutes'',
           command = strip text\<rparr>,
      s\<lparr>last_command := strip text, last_stdout := [],
        last_stderr := ''Command timed out after 5 minutes'', last_returncode := 124,
        world := w,
        trace := trace s @ [Execute text, SubprocessRun (strip text) (cwd s)]\<rparr>)"
  using assms by (simp add: execute_def run_external_def record_result_def Let_def)

theorem execute_timeout_witness:
  "strip ''sleep 600'' \<noteq> [] \<and> \<not> startswith (strip ''sleep 600'') ''#''
   \<and> lower (strip ''sleep 600'') \<notin> set shell_interpreters
   \<and> shlex_split (strip ''sleep 600'') = Inr [''sleep'', ''600'']
   \<and> map_of (register_builtins example_host) ''sleep'' = None
   \<and> fst (subprocess_run example_host (world example_session) (strip ''sleep 600'')
            (cwd example_session) (env example_session) 300) = TimeoutExpired
   \<and> fst (execute example_host ''sleep 600'' example_session) =
       Inr \<lparr>returncode = 124, stdout = [], stderr = ''Command timed out after 5 minutes'',
            command = ''sleep 600''\<rparr>"
proof -
  have st: "strip ''sleep 600'' = ''sleep 600''" by (simp add: string_eval)
  have a: "strip ''sleep 600'' \<noteq> []" "\<not> startswith (strip ''sleep 600'') ''#''"
    "lower (strip ''sleep 600'') \<notin> set shell_interpreters"
    by (simp_all add: string_eval shell_interpreters_def)
  have b: "shlex_split (strip ''sleep 600'') = Inr [''sleep'', ''600'']"
    by (simp add: string_eval shlex_eval)
  have c: "[''sleep'', ''600''] \<noteq> [] \<longrightarrow>
           map_of (register_builtins example_host) (hd [''sleep'', ''600'']) = None"
    by (simp add: register_builtins_def)
  have d: "subprocess_run example_host (world example_session) (strip ''sleep 600'')
             (cwd example_session) (env example_session) 300
           = (TimeoutExpired, world example_session)"
    by (simp add: example_eval string_eval)
  from execute_timeout[OF a b c d] a b c d st show ?thesis by simp
qed

section \<open>Claims about the classifier\<close>

text \<open>
  Claim C6 (a known first token or a shell operator anywhere in the text gives
  \<open>SHELL_COMMAND\<close>).  The comment and \<open>ai:\<close> tests come first in \<open>classify\<close>, so an
  operator inside a comment or an AI request does not make it a shell command.  What
  holds: a known first token always gives \<open>SHELL_COMMAND\<close>, and so does an operator
  in a text that, trimmed, starts neither with \<open>#\<close> nor with \<open>ai:\<close> in upper or lower
  case.
\<close>

theorem classify_shell_command:
  assumes "first_token text \<in> set (SHELL_COMMANDS h)
           \<or> (list_ex (\<lambda>op. substring_in op text) shell_operators
              \<and> \<not> startswith (strip text) ''#''
              \<and> \<not> startswith (lower (strip text)) AI_PREFIX)"
  shows "classify h text = SHELL_COMMAND"
  using assms
proof
  assume known: "first_token text \<in> set (SHELL_COMMANDS h)"
  from known_command_not_comment[OF known] known first_token_strip[of "text"]
  show ?thesis by (simp add: classify_def is_shell_command_def Let_def)
next
  assume ops: "list_ex (\<lambda>op. substring_in op text) shell_operators
              \<and> \<not> startswith (strip text) ''#''
              \<and> \<not> startswith (lower (strip text)) AI_PREFIX"
  then have inf: "list_ex (\<lambda>op. substring_in op (strip text)) shell_operators"
    using operators_infix by blast
  then have "strip text \<noteq> []"
    by (auto simp: list_ex_iff shell_operators_def)
  with ops inf show ?thesis by (simp add: classify_def is_shell_command_def Let_def)
qed

theorem classify_shell_command_witness:
  "first_token ''git STATUS'' \<in> set (SHELL_COMMANDS example_host)
   \<and> classify example_host ''git STATUS'' = SHELL_COMMAND
   \<and> first_token ''Show Me x > y'' \<notin> set (SHELL_COMMANDS example_host)
   \<and> list_ex (\<lambda>op. substring_in op ''Show Me x > y'') shell_operators
   \<and> \<not> startswith (strip ''Show Me x > y'') ''#''
   \<and> \<not> startswith (lower (strip ''Show Me x > y'')) AI_PREFIX
   \<and> classify example_host ''Show Me x > y'' = SHELL_COMMAND
   \<and> first_token (''ls'' @ [CHR 0xA0] @ ''-la'') = ''ls''
   \<and> classify example_host (''ls'' @ [CHR 0xA0] @ ''-la'') = SHELL_COMMAND"
proof -
  have n: "first_token (''ls'' @ [CHR 0xA0] @ ''-la'') = ''ls''"
    by (simp add: first_token_def string_eval)
  have m: "first_token (''ls'' @ [CHR 0xA0] @ ''-la'') \<in> set (SHELL_COMMANDS example_host)"
    unfolding n by (simp add: SHELL_COMMANDS_def)
  have a: "first_token ''git STATUS'' \<in> set (SHELL_COMMANDS example_host)"
    by (simp add: first_token_def SHELL_COMMANDS_def string_eval)
  have b: "first_token ''Show Me x > y'' \<notin> set (SHELL_COMMANDS example_host)"
    by (simp add: first_token_def SHELL_COMMANDS_def string_eval example_host_def)
  have c: "list_ex (\<lambda>op. substring_in op ''Show Me x > y'') shell_operators
     \<and> \<not> startswith (strip ''Show Me x > y'') ''#''
     \<and> \<not> startswith (lower (strip ''Show Me x > y'')) AI_PREFIX"
    by (simp add: shell_operators_def AI_PREFIX_def string_eval)
  from classify_shell_command[OF disjI1[OF a]]
       classify_shell_command[OF disjI2[OF c], of example_host]
       classify_shell_command[OF disjI1[OF m]] a b c n
  show ?thesis by simp
qed

text \<open>The comment \<open># a | b\<close> contains the operator \<open>|\<close> and is classified \<open>COMMENT\<close>.\<close>

theorem classify_comment_counterexample:
  "substring_in ''|'' ''# a | b'' \<and> list_ex (\<lambda>op. substring_in op ''# a | b'') shell_operators
   \<and> classify example_host ''# a | b'' = COMMENT"
  by (simp add: classify_def shell_operators_def string_eval)

section \<open>Claims about the context extractor\<close>

text \<open>
  Claim C7 (\<open>@missing.txt\<close> gives an empty command and an error blob, and the
  extractor never raises for a missing file or an unreachable clipboard).  The part
  about files holds (\<open>process_input_missing_file\<close>).  The part about the clipboard
  does not: \<open>_get_clipboard\<close> catches only \<open>ImportError\<close> around \<open>pyperclip.paste()\<close>,
  so when \<open>pyperclip\<close> is installed and cannot reach a clipboard, its exception leaves
  \<open>process_input\<close> for every text with a clipboard marker.
\<close>

theorem process_input_clipboard_raises:
  assumes "substring_in ''{clipboard}'' text \<or> substring_in ''{clip}'' text"
    "pyperclip_paste h (world (snd (read_stdin h s))) = PasteFailed e"
  shows "process_input h text s = (Inl e, snd (read_stdin h s))"
  using assms
  by (auto simp: process_input_def get_clipboard_def Let_def split: prod.splits)

theorem process_input_clipboard_raises_witness:
  "substring_in ''{clipboard}'' ''explain {clipboard}''
   \<and> pyperclip_paste example_host (world (snd (read_stdin example_host example_session)))
       = PasteFailed (OtherError ''Pyperclip could not find a copy/paste mechanism for your system.'')
   \<and> process_input example_host ''explain {clipboard}'' example_session
       = (Inl (OtherError ''Pyperclip could not find a copy/paste mechanism for your system.''),
          example_session)"
proof -
  have a: "substring_in ''{clipboard}'' ''explain {clipboard}''" by simp
  have s: "snd (read_stdin example_host example_session) = example_session"
    by (simp add: read_stdin_def example_host_def)
  have b: "pyperclip_paste example_host (world (snd (read_stdin example_host example_session)))
       = PasteFailed (OtherError ''Pyperclip could not find a copy/paste mechanism for your system.'')"
    unfolding s by (simp add: example_eval)
  from process_input_clipboard_raises[OF disjI1[OF a] b] a b s show ?thesis by simp
qed

lemma process_input_missing_file:
  assumes "read_stdin h s = (stdin_context, s1)"
    "path = (if \<not> path_isabs h ''missing.txt'' then path_join h (cwd s1) ''missing.txt''
             else ''missing.txt'')"
    "\<not> path_isfile h (world s1) path"
  shows "process_input h ''@missing.txt'' s =
    (Inr \<lparr>clean_command = [],
          context_blobs = stdin_context @ [''# Error: File not found: '' @ path @ [CHR 0x0A]],
          files = [''missing.txt'']\<rparr>, s1)"
  using assms
  by (simp add: process_input_def add_ref_def add_file_def read_file_def clean_text_def
      string_eval Let_def)

lemma process_input_missing_file_example:
  "process_input example_host ''@missing.txt'' example_session =
    (Inr \<lparr>clean_command = [],
          context_blobs = [''# Error: File not found: /home/user/missing.txt'' @ [CHR 0x0A]],
          files = [''missing.txt'']\<rparr>, example_session)"
  by (simp add: process_input_def add_ref_def add_file_def read_file_def clean_text_def
      read_stdin_def string_eval example_eval Let_def)

section \<open>Claims about the translator\<close>

text \<open>
  Claim C8 (the post-processing returns the content of the shell-tagged block, trimmed
  and otherwise unaltered).  The code deletes every occurrence of \<open>bash\<close> and of \<open>sh\<close>
  from the chosen part, not only the language tag: the reply that fences the command
  \<open>git push\<close> in a block tagged \<open>bash\<close> comes back as \<open>git pu\<close>.
\<close>

theorem clean_output_alters_command:
  "clean_output (''```bash'' @ [CHR 0x0A] @ ''git push'' @ [CHR 0x0A] @ ''```'') = ''git pu''"
  by (simp add: clean_output_def string_eval)

section \<open>Claims about the orchestrator\<close>

text \<open>
  Claim C10 (a command whose lower-case form starts with a safe prefix is run
  automatically, whatever else it contains and whether or not the prefix is a whole
  word).
\<close>

theorem should_autorun_safe_prefix:
  "p \<in> set safe_prefixes \<Longrightarrow> startswith (lower cmd) p \<Longrightarrow> should_autorun h cmd s"
proof -
  assume "p \<in> set safe_prefixes" "startswith (lower cmd) p"
  then have "list_ex (\<lambda>prefix. startswith (lower cmd) prefix) safe_prefixes"
    unfolding list_ex_iff by blast
  then show ?thesis
    unfolding should_autorun_def Let_def by simp
qed

text \<open>
  The two examples of the claim: \<open>cd /tmp && rm -rf x\<close> contains the risky keyword
  \<open>rm\<close>, and the first word of \<open>catastrophe now\<close> only starts with \<open>cat\<close>.
\<close>

theorem should_autorun_safe_prefix_witness:
  "''cd'' \<in> set safe_prefixes \<and> startswith (lower ''cd /tmp && rm -rf x'') ''cd''
   \<and> list_ex (\<lambda>keyword. substring_in keyword (lower ''cd /tmp && rm -rf x'')) risky_keywords
   \<and> should_autorun example_host ''cd /tmp && rm -rf x'' example_session
   \<and> ''cat'' \<in> set safe_prefixes \<and> startswith (lower ''catastrophe now'') ''cat''
   \<and> first_token ''catastrophe now'' = ''catastrophe''
   \<and> should_autorun example_host ''catastrophe now'' example_session"
proof -
  have a: "''cd'' \<in> set safe_prefixes" "''cat'' \<in> set safe_prefixes"
    by (simp_all add: safe_prefixes_def)
  have b: "startswith (lower ''cd /tmp && rm -rf x'') ''cd''"
    "startswith (lower ''catastrophe now'') ''cat''"
    by (simp_all add: string_eval)
  have c: "list_ex (\<lambda>keyword. substring_in keyword (lower ''cd /tmp && rm -rf x'')) risky_keywords"
    by (simp add: risky_keywords_def string_eval)
  have d: "first_token ''catastrophe now'' = ''catastrophe''"
    by (simp add: first_token_def string_eval)
  from should_autorun_safe_prefix[OF a(1) b(1), of example_host example_session]
       should_autorun_safe_prefix[OF a(2) b(2), of example_host example_session] a b c d
  show ?thesis by simp
qed

text \<open>
  Claim C2 (triage of the queue \<open>ls -la\<close>, \<open>rm -rf /tmp/x\<close>).  Started with an empty
  prefill, as the interactive loop always starts it, one run of the triage loop hands
  \<open>ls -la\<close> to \<open>execute\<close> and to the process primitive, removes it from the queue,
  and returns with \<open>rm -rf /tmp/x\<close> as the prefill and as the only queued command.
\<close>

theorem triage_example:
  assumes "pending_commands s = [''ls -la'', ''rm -rf /tmp/x'']" "prompt_prefill s = []"
  shows "\<exists>s'. execute_translated_commands h s = (Inr (), s')
           \<and> pending_commands s' = [''rm -rf /tmp/x'']
           \<and> prompt_prefill s' = ''rm -rf /tmp/x''
           \<and> executed (trace s') = executed (trace s) @ [''ls -la'']
           \<and> spawned (trace s') = spawned (trace s) @ [''ls -la'']"
proof -
  have safe: "should_autorun h ''ls -la'' s"
    by (simp add: should_autorun_def safe_prefixes_def string_eval)
  have risky: "\<not> should_autorun h ''rm -rf /tmp/x'' s1" for s1 :: "'a session"
    by (simp add: should_autorun_def safe_prefixes_def risky_keywords_def string_eval)
  let ?s0 = "print_event (PrintAgentCommand ''ls -la'' False) s"
  let ?s1 = "?s0\<lparr>trace := trace ?s0 @ [Execute ''ls -la'']\<rparr>"
  have ex: "execute h ''ls -la'' ?s0 = run_external h ''ls -la'' ?s1"
    by (simp add: execute_def string_eval shell_interpreters_def shlex_eval
        register_builtins_def Let_def)
  obtain r w where ext: "run_external h ''ls -la'' ?s1 =
      (Inr r, record_result r (?s1\<lparr>trace := trace ?s1 @ [SubprocessRun ''ls -la'' (cwd ?s1)],
                                   world := w\<rparr>))"
    using run_external_result[of h "''ls -la''" ?s1] by blast
  from ex ext assms obtain s2 where ex2: "execute h ''ls -la'' ?s0 = (Inr r, s2)"
    and p2: "pending_commands s2 = [''ls -la'', ''rm -rf /tmp/x'']" "prompt_prefill s2 = []"
    "trace s2 = trace s @ [PrintAgentCommand ''ls -la'' False, Execute ''ls -la'',
                           SubprocessRun ''ls -la'' (cwd s)]"
    by (simp add: record_result_def print_event_def)
  from ex2 p2 obtain s3 where rc: "run_command h ''ls -la'' s = (Inr (), s3)"
    and p3: "pending_commands s3 = [''rm -rf /tmp/x'']" "prompt_prefill s3 = []"
    "trace s3 = trace s2 @ [PrintResult r]"
    by (simp add: run_command_def list_remove_def print_event_def)
  let ?s' = "print_event (PrintNotice ''Press Enter to run or edit the prepared command.'')
           (print_event (PrintAgentCommand ''rm -rf /tmp/x'' True) (s3\<lparr>prompt_prefill := ''rm -rf /tmp/x''\<rparr>))"
  have "execute_translated_commands h s = (Inr (), ?s')"
    using assms safe risky rc p3 by (simp add: execute_translated_commands_def)
  moreover have "pending_commands ?s' = [''rm -rf /tmp/x'']" "prompt_prefill ?s' = ''rm -rf /tmp/x''"
    "executed (trace ?s') = executed (trace s) @ [''ls -la'']"
    "spawned (trace ?s') = spawned (trace s) @ [''ls -la'']"
    using p2 p3 by (simp_all add: print_event_def executed_append spawned_append)
  ultimately show ?thesis by blast
qed

theorem triage_example_witness:
  "pending_commands (example_session\<lparr>pending_commands := [''ls -la'', ''rm -rf /tmp/x'']\<rparr>)
     = [''ls -la'', ''rm -rf /tmp/x'']
   \<and> prompt_prefill (example_session\<lparr>pending_commands := [''ls -la'', ''rm -rf /tmp/x'']\<rparr>) = []
   \<and> (\<exists>s'. execute_translated_commands example_host
              (example_session\<lparr>pending_commands := [''ls -la'', ''rm -rf /tmp/x'']\<rparr>) = (Inr (), s')
           \<and> pending_commands s' = [''rm -rf /tmp/x'']
           \<and> prompt_prefill s' = ''rm -rf /tmp/x''
           \<and> executed (trace s') = [''ls -la'']
           \<and> spawned (trace s') = [''ls -la''])"
proof -
  let ?s = "example_session\<lparr>pending_commands := [''ls -la'', ''rm -rf /tmp/x'']\<rparr>"
  have a: "pending_commands ?s = [''ls -la'', ''rm -rf /tmp/x'']" by simp
  have b: "prompt_prefill ?s = []" by (simp add: example_session_def)
  have t: "trace ?s = []" by (simp add: example_session_def)
  from triage_example[OF a b, of example_host] a b t show ?thesis by simp
qed

text \<open>
  Claim C3 (a rerun phrase runs the whole queue in order, without triage, and leaves it
  empty).  As stated the claim fails on a queue that holds \<open>exit\<close>: the built-in ends
  the session with \<open>SystemExit\<close>, by design, and the queue keeps it.  What holds for
  every queue: when the run returns, every queued command has been handed to
  \<open>execute\<close>, in queue order and whatever the autorun predicate says of it, and the
  queue and the prefill are empty; when the run ends with \<open>SystemExit\<close>, the commands
  before the one that raised it have run in order, and that command and those behind
  it stay queued.
\<close>

theorem rerun_shortcut_runs_queue:
  assumes "lower (strip input) \<in> set rerun_phrases" "pending_commands s \<noteq> []"
    "handle_shortcut h input s = (res, s')"
  shows "(\<forall>b. res = Inr b \<longrightarrow>
            b \<and> pending_commands s' = [] \<and> prompt_prefill s' = []
            \<and> executed (trace s') = executed (trace s) @ pending_commands s)
    \<and> (\<forall>code. res = Inl (SystemExit code) \<longrightarrow>
          (\<exists>pre c post s0. pending_commands s = pre @ c # post
             \<and> pending_commands s' = c # post \<and> prompt_prefill s' = []
             \<and> executed (trace s') = executed (trace s) @ pre @ [c]
             \<and> execute h c s0 = (Inl (SystemExit code), s')))"
proof -
  let ?s0 = "s\<lparr>prompt_prefill := []\<rparr>"
  obtain r s1 where loop: "run_loop h (pending_commands s) ?s0 = (r, s1)"
    by (cases "run_loop h (pending_commands s) ?s0")
  have p0: "pending_commands ?s0 = pending_commands s" by simp
  show ?thesis
  proof (cases r)
    case (Inl e)
    with assms loop have res: "res = Inl e" "s' = s1"
      by (auto simp: handle_shortcut_def run_pending_commands_def)
    from run_loop_raises[OF p0 loop[unfolded Inl]] res show ?thesis by auto
  next
    case (Inr u)
    with assms loop have res: "res = Inr True" "s' = s1"
      by (auto simp: handle_shortcut_def run_pending_commands_def)
    from run_loop_returns[OF p0 loop[unfolded Inr]] res show ?thesis by auto
  qed
qed

text \<open>
  Both cases on the example host: the queue of the claim, whose two commands the
  autorun predicate would not run, and a queue with \<open>exit 3\<close> in the middle.
\<close>

theorem rerun_shortcut_runs_queue_witness:
  "lower (strip ''go ahead'') \<in> set rerun_phrases
   \<and> \<not> should_autorun example_host ''git commit -m x'' example_session
   \<and> \<not> should_autorun example_host ''git push'' example_session
   \<and> (\<exists>s'. handle_shortcut example_host ''go ahead''
               (example_session\<lparr>pending_commands := [''git commit -m x'', ''git push'']\<rparr>)
             = (Inr True, s')
           \<and> pending_commands s' = [] \<and> prompt_prefill s' = []
           \<and> executed (trace s') = [''git commit -m x'', ''git push''])
   \<and> (\<exists>s'. handle_shortcut example_host ''go ahead''
               (example_session\<lparr>pending_commands := [''ls'', ''exit 3'', ''pwd'']\<rparr>)
             = (Inl (SystemExit 3), s')
           \<and> pending_commands s' = [''exit 3'', ''pwd''] \<and> prompt_prefill s' = []
           \<and> executed (trace s') = [''ls'', ''exit 3''])"
proof -
  let ?s = "example_session\<lparr>pending_commands := [''git commit -m x'', ''git push'']\<rparr>"
  let ?t = "example_session\<lparr>pending_commands := [''ls'', ''exit 3'', ''pwd'']\<rparr>"
  have phrase: "lower (strip ''go ahead'') \<in> set rerun_phrases"
    by (simp add: rerun_phrases_def string_eval)
  have risky: "\<not> should_autorun example_host ''git commit -m x'' example_session"
    "\<not> should_autorun example_host ''git push'' example_session"
    by (simp_all add: should_autorun_def safe_prefixes_def risky_keywords_def string_eval)
  have queue: "pending_commands ?s \<noteq> []" "pending_commands ?t \<noteq> []" by simp_all
  have start: "executed (trace ?s) = []" "executed (trace ?t) = []"
    by (simp_all add: example_session_def)
  obtain res s' where run: "handle_shortcut example_host ''go ahead'' ?s = (res, s')"
    by (cases "handle_shortcut example_host ''go ahead'' ?s")
  have "fst (handle_shortcut example_host ''go ahead'' ?s) = Inr True"
    by (simp add: orchestrator_eval executor_eval example_eval string_eval shlex_eval)
  with run have res: "res = Inr True" by simp
  from rerun_shortcut_runs_queue[OF phrase queue(1) run] res start
  have first: "pending_commands s' = []" "prompt_prefill s' = []"
    "executed (trace s') = [''git commit -m x'', ''git push'']"
    by auto
  obtain res2 t' where run2: "handle_shortcut example_host ''go ahead'' ?t = (res2, t')"
    by (cases "handle_shortcut example_host ''go ahead'' ?t")
  have "fst (handle_shortcut example_host ''go ahead'' ?t) = Inl (SystemExit 3)"
    by (simp add: orchestrator_eval executor_eval example_eval string_eval shlex_eval)
  with run2 have res2: "res2 = Inl (SystemExit 3)" by simp
  have "pending_commands (snd (handle_shortcut example_host ''go ahead'' ?t))
          = [''exit 3'', ''pwd'']"
    by (simp add: orchestrator_eval executor_eval example_eval string_eval shlex_eval)
  with run2 have pend2: "pending_commands t' = [''exit 3'', ''pwd'']" by simp
  from rerun_shortcut_runs_queue[OF phrase queue(2) run2] res2 start obtain pre c post where
    split: "[''ls'', ''exit 3'', ''pwd''] = pre @ c # post" "pending_commands t' = c # post"
    and rest: "prompt_prefill t' = []" "executed (trace t') = pre @ [c]"
    by auto
  from split pend2 have "c = ''exit 3''" "post = [''pwd'']" by simp_all
  with split(1) have "pre = [''ls'']" by simp
  with rest \<open>c = ''exit 3''\<close> have second: "executed (trace t') = [''ls'', ''exit 3'']" by simp
  from phrase risky run res first run2 res2 pend2 rest(1) second show ?thesis by simp
qed

text \<open>
  The queue \<open>exit\<close>, \<open>ls\<close> refutes the claim as stated: \<open>go ahead\<close> raises
  \<open>SystemExit\<close> at the first command, \<open>ls\<close> never runs and both stay queued.
\<close>

theorem rerun_shortcut_exit_counterexample:
  "lower (strip ''go ahead'') \<in> set rerun_phrases
   \<and> handle_shortcut example_host ''go ahead'' (example_session\<lparr>pending_commands := [''exit'', ''ls'']\<rparr>)
     = (Inl (SystemExit 0),
        example_session\<lparr>pending_commands := [''exit'', ''ls''],
          trace := [PrintAgentCommand ''exit'' False, Execute ''exit'']\<rparr>)"
  by (simp add: orchestrator_eval executor_eval example_eval string_eval shlex_eval)

text \<open>
  Claim C4 (from an empty prefill the triage loop ends with an empty queue or with the
  front command staged in the prefill).  The code does not do this when an
  automatically run command raises: \<open>echo "hi\<close> has a safe prefix, \<open>execute\<close> raises
  \<open>ValueError\<close> on its unclosed quotation (the defect of claim C1), and the loop ends
  with the command still queued and nothing staged.  Whenever the loop returns, the
  claim holds: that is \<open>execute_translated_commands_returns\<close>.
\<close>

theorem triage_unbalanced_quote_raises:
  "execute_translated_commands h
     (s\<lparr>pending_commands := [''echo '' @ [CHR 0x22] @ ''hi''], prompt_prefill := []\<rparr>)
   = (Inl (ValueError ''No closing quotation''),
      s\<lparr>pending_commands := [''echo '' @ [CHR 0x22] @ ''hi''], prompt_prefill := [],
        trace := trace s @ [PrintAgentCommand (''echo '' @ [CHR 0x22] @ ''hi'') False,
                            Execute (''echo '' @ [CHR 0x22] @ ''hi'')]\<rparr>)"
  by (simp add: orchestrator_eval execute_def shell_interpreters_def string_eval shlex_eval Let_def)

end
